theory Spec2Isabelle
  imports Main
begin

section \<open>JavaScript values\<close>

text \<open>
  The values the core handles are the values \<^verbatim>\<open>JSON.parse\<close> produces, plus
  \<^verbatim>\<open>undefined\<close>. An object is the map of its own properties; equality of two
  \<open>json\<close> values is structural equality (property order is not part of a value).
  The members an object inherits from \<^verbatim>\<open>Object.prototype\<close> are modelled where the tree
  reducer reads and writes the element map by key (\<open>lookup_element\<close>, \<open>assign_element\<close>);
  \<open>get_prop\<close> and \<open>has_prop\<close> read own properties. Numbers are integers (only their
  being zero or not is ever inspected), and a string is a list of 8-bit characters.
\<close>

datatype json =
    JUndefined
  | JNull
  | JBool bool
  | JNum int
  | JStr string
  | JArr "json list"
  | JObj "string \<Rightarrow> json option"

datatype jstype = TUndefined | TObject | TBoolean | TNumber | TString

text \<open>The \<^verbatim>\<open>typeof\<close> operator: \<^verbatim>\<open>null\<close> and arrays are \<^verbatim>\<open>"object"\<close>.\<close>

fun typeof :: "json \<Rightarrow> jstype" where
  "typeof JUndefined = TUndefined"
| "typeof JNull = TObject"
| "typeof (JBool b) = TBoolean"
| "typeof (JNum n) = TNumber"
| "typeof (JStr s) = TString"
| "typeof (JArr xs) = TObject"
| "typeof (JObj m) = TObject"

text \<open>Boolean coercion, as \<^verbatim>\<open>if (x)\<close> and \<^verbatim>\<open>!x\<close> perform it.\<close>

fun truthy :: "json \<Rightarrow> bool" where
  "truthy JUndefined = False"
| "truthy JNull = False"
| "truthy (JBool b) = b"
| "truthy (JNum n) = (n \<noteq> 0)"
| "truthy (JStr s) = (s \<noteq> [])"
| "truthy (JArr xs) = True"
| "truthy (JObj m) = True"

fun is_nullish :: "json \<Rightarrow> bool" where
  "is_nullish JUndefined = True"
| "is_nullish JNull = True"
| "is_nullish v = False"

datatype error =
    TypeError
  | ArrayNamedWrite

text \<open>
  \<open>TypeError\<close> is the exception JavaScript raises on a property access, an \<^verbatim>\<open>in\<close> test
  or a method call on a value that does not support it. \<open>ArrayNamedWrite\<close> marks a write
  of a property that is not an index on an array (\<^verbatim>\<open>length\<close> or a named property): its
  result is not a JSON value, so the model stops there.
\<close>

subsection \<open>Strings\<close>

definition startsWith :: "string \<Rightarrow> string \<Rightarrow> bool" where
  "startsWith p s = (take (length p) s = p)"

text \<open>\<^verbatim>\<open>s.split(c)\<close> for a one-character separator: never empty, \<^verbatim>\<open>"".split(c) = [""]\<close>.\<close>

fun split_on :: "char \<Rightarrow> string \<Rightarrow> string list" where
  "split_on c [] = [[]]"
| "split_on c (x # xs) =
     (if x = c then [] # split_on c xs
      else (case split_on c xs of
              [] \<Rightarrow> [[x]]
            | y # ys \<Rightarrow> (x # y) # ys))"

text \<open>\<^verbatim>\<open>parts.join(c)\<close>.\<close>

fun join_with :: "char \<Rightarrow> string list \<Rightarrow> string" where
  "join_with c [] = []"
| "join_with c [s] = s"
| "join_with c (s # t # ss) = s @ c # join_with c (t # ss)"

definition is_ws :: "char \<Rightarrow> bool" where
  "is_ws c = (c \<in> set [CHR 0x09, CHR 0x0A, CHR 0x0B, CHR 0x0C, CHR 0x0D, CHR 0x20])"

text \<open>\<^verbatim>\<open>s.trim()\<close> on ASCII text.\<close>

definition trim :: "string \<Rightarrow> string" where
  "trim s = rev (dropWhile is_ws (rev (dropWhile is_ws s)))"

subsection \<open>Own properties\<close>

definition is_digit :: "char \<Rightarrow> bool" where
  "is_digit c = ((48::nat) \<le> of_char c \<and> of_char c \<le> (57::nat))"

definition dec_val :: "string \<Rightarrow> nat" where
  "dec_val s = foldl (\<lambda>n c. 10 * n + (of_char c - 48)) 0 s"

text \<open>A canonical array index: \<^verbatim>\<open>"0"\<close>, or digits with no leading zero, below \<open>2^32 - 1\<close>.\<close>

definition array_index :: "string \<Rightarrow> nat option" where
  "array_index s =
     (if s = [] \<or> \<not> list_all is_digit s \<or> (hd s = CHR ''0'' \<and> length s \<noteq> 1) then None
      else if dec_val s < 4294967295 then Some (dec_val s) else None)"

text \<open>
  \<^verbatim>\<open>k in v\<close> and \<^verbatim>\<open>v[k]\<close> for a value whose \<^verbatim>\<open>typeof\<close> is \<^verbatim>\<open>"object"\<close> or a primitive
  that is not \<^verbatim>\<open>null\<close> or \<^verbatim>\<open>undefined\<close>; a caller handles those two, where JavaScript
  throws, before it reads.
\<close>

fun has_prop :: "json \<Rightarrow> string \<Rightarrow> bool" where
  "has_prop (JObj m) k = (m k \<noteq> None)"
| "has_prop (JArr xs) k =
     (k = ''length'' \<or> (case array_index k of None \<Rightarrow> False | Some i \<Rightarrow> i < length xs))"
| "has_prop v k = False"

fun get_prop :: "json \<Rightarrow> string \<Rightarrow> json" where
  "get_prop (JObj m) k = (case m k of None \<Rightarrow> JUndefined | Some v \<Rightarrow> v)"
| "get_prop (JArr xs) k =
     (if k = ''length'' then JNum (int (length xs))
      else (case array_index k of
              None \<Rightarrow> JUndefined
            | Some i \<Rightarrow> if i < length xs then xs ! i else JUndefined))"
| "get_prop (JStr s) k =
     (if k = ''length'' then JNum (int (length s))
      else (case array_index k of
              None \<Rightarrow> JUndefined
            | Some i \<Rightarrow> if i < length s then JStr [s ! i] else JUndefined))"
| "get_prop v k = JUndefined"

text \<open>
  \<^verbatim>\<open>v[k] = x\<close>. On an array an index at or past the end extends it, the gap reading
  \<^verbatim>\<open>undefined\<close>. On \<^verbatim>\<open>null\<close>, \<^verbatim>\<open>undefined\<close> and (in strict mode) a primitive it throws.
\<close>

fun set_prop :: "json \<Rightarrow> string \<Rightarrow> json \<Rightarrow> error + json" where
  "set_prop (JObj m) k x = Inr (JObj (m(k \<mapsto> x)))"
| "set_prop (JArr xs) k x =
     (case array_index k of
        None \<Rightarrow> Inl ArrayNamedWrite
      | Some i \<Rightarrow>
          if i < length xs then Inr (JArr (xs[i := x]))
          else Inr (JArr (xs @ replicate (i - length xs) JUndefined @ [x])))"
| "set_prop v k x = Inl TypeError"

section \<open>Path addressing\<close>

text \<open>
  \<^verbatim>\<open>path.startsWith("/") ? path.slice(1).split("/") : path.split("/")\<close>
\<close>

definition path_segments :: "string \<Rightarrow> string list" where
  "path_segments path =
     (if startsWith ''/'' path then split_on CHR ''/'' (drop 1 path)
      else split_on CHR ''/'' path)"

text \<open>The loop of \<^verbatim>\<open>getByPath\<close>.\<close>

fun get_walk :: "json \<Rightarrow> string list \<Rightarrow> json" where
  "get_walk current [] = current"
| "get_walk current (segment # rest) =
     (if is_nullish current then JUndefined
      else if typeof current = TObject then get_walk (get_prop current segment) rest
      else JUndefined)"

text \<open>
  \<^verbatim>\<open>getByPath(obj, path)\<close>. The parameter is declared a string; a caller that passes
  something else that is truthy reaches \<^verbatim>\<open>path.startsWith\<close>, which is not a function
  there.
\<close>

definition getByPath :: "json \<Rightarrow> json \<Rightarrow> error + json" where
  "getByPath obj path =
     (if \<not> truthy path then Inr obj
      else (case path of
              JStr p \<Rightarrow> if p = ''/'' then Inr obj else Inr (get_walk obj (path_segments p))
            | _ \<Rightarrow> Inl TypeError))"

text \<open>
  The loop and the final assignment of \<^verbatim>\<open>setByPath\<close>. The source mutates the objects
  on the path in place; the model rebuilds them from the inside out and returns the new
  root, or the exception alone when the source throws (the mappings the source had created
  by then are not kept). \<^verbatim>\<open>segment in current\<close> throws when \<open>current\<close> is not an object.
\<close>

fun set_walk :: "json \<Rightarrow> string list \<Rightarrow> json \<Rightarrow> error + json" where
  "set_walk current [] x = Inr current"
| "set_walk current [lastSegment] x = set_prop current lastSegment x"
| "set_walk current (segment # rest) x =
     (if typeof current \<noteq> TObject \<or> is_nullish current then Inl TypeError
      else if \<not> has_prop current segment \<or> typeof (get_prop current segment) \<noteq> TObject
      then (case set_prop current segment (JObj Map.empty) of
              Inl e \<Rightarrow> Inl e
            | Inr current' \<Rightarrow>
                (case set_walk (JObj Map.empty) rest x of
                   Inl e \<Rightarrow> Inl e
                 | Inr child \<Rightarrow> set_prop current' segment child))
      else (case set_walk (get_prop current segment) rest x of
              Inl e \<Rightarrow> Inl e
            | Inr child \<Rightarrow> set_prop current segment child))"

definition setByPath :: "json \<Rightarrow> string \<Rightarrow> json \<Rightarrow> error + json" where
  "setByPath obj path x =
     (let segments = path_segments path
      in if length segments = 0 then Inr obj else set_walk obj segments x)"

section \<open>Dynamic values\<close>

definition resolveDynamicValue :: "json \<Rightarrow> json \<Rightarrow> error + json" where
  "resolveDynamicValue v dataModel =
     (if is_nullish v then Inr JUndefined
      else if typeof v = TObject \<and> has_prop v ''path''
      then getByPath dataModel (get_prop v ''path'')
      else Inr v)"

section \<open>Tree reducer\<close>

record UITree =
  root :: json
  elements :: "string \<Rightarrow> json option"

text \<open>
  A patch is whatever \<^verbatim>\<open>JSON.parse\<close> returned for a line; its fields are read with
  \<^verbatim>\<open>patch.op\<close>, \<^verbatim>\<open>patch.path\<close>, \<^verbatim>\<open>patch.value\<close>, \<^verbatim>\<open>patch.dataPath\<close>.
  A \<open>UITree\<close> has the two fields the type declares; the field \<open>root\<close> holds whatever
  value a patch stored there.
\<close>

text \<open>\<^verbatim>\<open>{ ...element }\<close>: the own enumerable properties of a value.\<close>

fun spread :: "json \<Rightarrow> (string \<Rightarrow> json option)" where
  "spread (JObj m) = m"
| "spread (JArr xs) =
     (\<lambda>k. case array_index k of
            None \<Rightarrow> None
          | Some i \<Rightarrow> if i < length xs then Some (xs ! i) else None)"
| "spread (JStr s) =
     (\<lambda>k. case array_index k of
            None \<Rightarrow> None
          | Some i \<Rightarrow> if i < length s then Some (JStr [s ! i]) else None)"
| "spread v = Map.empty"

text \<open>
  Calling a string method (\<^verbatim>\<open>startsWith\<close>, \<^verbatim>\<open>slice\<close>) on \<^verbatim>\<open>patch.path\<close>: a
  \<^verbatim>\<open>TypeError\<close> unless the value is a string.
\<close>

fun as_string :: "json \<Rightarrow> error + string" where
  "as_string (JStr s) = Inr s"
| "as_string v = Inl TypeError"

text \<open>
  The names of the members every object literal inherits from \<^verbatim>\<open>Object.prototype\<close>.
  Each is a function, but \<^verbatim>\<open>__proto__\<close>, an accessor: read, it gives the prototype
  object; assigned, it sets the prototype and creates no own property.
\<close>

definition object_prototype_members :: "string list" where
  "object_prototype_members =
     [''constructor'', ''hasOwnProperty'', ''isPrototypeOf'', ''propertyIsEnumerable'',
      ''toLocaleString'', ''toString'', ''valueOf'', ''__defineGetter__'',
      ''__defineSetter__'', ''__lookupGetter__'', ''__lookupSetter__'', ''__proto__'']"

text \<open>
  What \<^verbatim>\<open>newTree.elements[elementKey]\<close> reads: the value of the own property, else the
  inherited member of that name, else \<^verbatim>\<open>undefined\<close>. An inherited member (a function, or
  the prototype object) is truthy and has no own enumerable property, so
  \<^verbatim>\<open>{ ...element }\<close> of it is the empty object.
\<close>

datatype looked_up = Value json | Inherited

definition lookup_element :: "(string \<Rightarrow> json option) \<Rightarrow> string \<Rightarrow> looked_up" where
  "lookup_element m k =
     (case m k of
        Some v \<Rightarrow> Value v
      | None \<Rightarrow> if k \<in> set object_prototype_members then Inherited else Value JUndefined)"

fun looked_up_truthy :: "looked_up \<Rightarrow> bool" where
  "looked_up_truthy (Value v) = truthy v"
| "looked_up_truthy Inherited = True"

fun looked_up_spread :: "looked_up \<Rightarrow> (string \<Rightarrow> json option)" where
  "looked_up_spread (Value v) = spread v"
| "looked_up_spread Inherited = Map.empty"

text \<open>
  \<^verbatim>\<open>newTree.elements[elementKey] = v\<close>: the own property is created or replaced. For
  the key \<^verbatim>\<open>__proto__\<close> with no own property of that name the inherited setter runs
  instead, and the own properties stay as they are.
\<close>

definition assign_element ::
  "(string \<Rightarrow> json option) \<Rightarrow> string \<Rightarrow> json \<Rightarrow> (string \<Rightarrow> json option)" where
  "assign_element m k v = (if k = ''__proto__'' \<and> m k = None then m else m(k \<mapsto> v))"

text \<open>
  The branch \<^verbatim>\<open>case "set": case "add": case "replace":\<close> of \<^verbatim>\<open>applyPatch\<close>.
  \<open>''/elements/''\<close> has ten characters.
\<close>

definition apply_set :: "UITree \<Rightarrow> json \<Rightarrow> error + UITree" where
  "apply_set newTree patch =
     (if get_prop patch ''path'' = JStr ''/root''
      then Inr (newTree\<lparr>root := get_prop patch ''value''\<rparr>)
      else (case as_string (get_prop patch ''path'') of
              Inl e \<Rightarrow> Inl e
            | Inr path \<Rightarrow>
                if startsWith ''/elements/'' path then
                  (let pathParts = split_on CHR ''/'' (drop 10 path);
                       elementKey = (case pathParts of [] \<Rightarrow> [] | k # _ \<Rightarrow> k)
                   in if elementKey = [] then Inr newTree
                      else if length pathParts = 1
                      then Inr (newTree\<lparr>elements :=
                                  assign_element (elements newTree) elementKey
                                    (get_prop patch ''value'')\<rparr>)
                      else (let element = lookup_element (elements newTree) elementKey
                            in if looked_up_truthy element then
                                 (let propPath = CHR ''/'' # join_with CHR ''/'' (tl pathParts)
                                  in case setByPath (JObj (looked_up_spread element)) propPath
                                            (get_prop patch ''value'') of
                                       Inl e \<Rightarrow> Inl e
                                     | Inr newElement \<Rightarrow>
                                         Inr (newTree\<lparr>elements :=
                                                assign_element (elements newTree) elementKey
                                                  newElement\<rparr>))
                               else Inr newTree))
                else Inr newTree))"

text \<open>The branch \<^verbatim>\<open>case "remove":\<close>.\<close>

definition apply_remove :: "UITree \<Rightarrow> json \<Rightarrow> error + UITree" where
  "apply_remove newTree patch =
     (case as_string (get_prop patch ''path'') of
        Inl e \<Rightarrow> Inl e
      | Inr path \<Rightarrow>
          if startsWith ''/elements/'' path then
            (let elementKey = (case split_on CHR ''/'' (drop 10 path) of [] \<Rightarrow> [] | k # _ \<Rightarrow> k)
             in if elementKey \<noteq> []
                then Inr (newTree\<lparr>elements := (elements newTree)(elementKey := None)\<rparr>)
                else Inr newTree)
          else Inr newTree)"

text \<open>
  The \<^verbatim>\<open>switch (patch.op)\<close> statement, which is the whole body of the \<^verbatim>\<open>applyPatch\<close>
  local to \<^verbatim>\<open>packages/react/src/hooks.ts\<close>. \<open>newTree\<close> is a copy of the tree with a copy
  of its element map, so it is the tree itself as a value. Reading a property of a patch
  that is \<^verbatim>\<open>null\<close> or \<^verbatim>\<open>undefined\<close> throws.
\<close>

definition applyPatch_hooks :: "UITree \<Rightarrow> json \<Rightarrow> error + UITree" where
  "applyPatch_hooks tree patch =
     (if is_nullish patch then Inl TypeError
      else if get_prop patch ''op'' \<in> {JStr ''set'', JStr ''add'', JStr ''replace''}
      then apply_set tree patch
      else if get_prop patch ''op'' = JStr ''remove'' then apply_remove tree patch
      else Inr tree)"

text \<open>
  \<^verbatim>\<open>applyPatch\<close> of \<^verbatim>\<open>packages/react/src/utils.ts\<close>: the same statement behind the
  guard \<^verbatim>\<open>if (!patch.path) return tree\<close>.
\<close>

definition applyPatch :: "UITree \<Rightarrow> json \<Rightarrow> error + UITree" where
  "applyPatch tree patch =
     (if is_nullish patch then Inl TypeError
      else if \<not> truthy (get_prop patch ''path'') then Inr tree
      else applyPatch_hooks tree patch)"

text \<open>Applying a second patch to the result of a first, an exception ending the run.\<close>

definition then_patch :: "error + UITree \<Rightarrow> json \<Rightarrow> error + UITree" where
  "then_patch r patch = (case r of Inl e \<Rightarrow> Inl e | Inr t \<Rightarrow> applyPatch t patch)"

section \<open>Patch stream processor\<close>

text \<open>
  \<^verbatim>\<open>JSON.parse\<close> is the platform's: the functions below take it as the parameter
  \<open>parse\<close>, \<open>None\<close> standing for the \<^verbatim>\<open>SyntaxError\<close> it throws. \<^verbatim>\<open>parsePatchLine\<close>
  returns \<^verbatim>\<open>null\<close> (\<open>JNull\<close>) or the parsed value.
\<close>

definition parsePatchLine :: "(string \<Rightarrow> json option) \<Rightarrow> string \<Rightarrow> json" where
  "parsePatchLine parse line =
     (let trimmed = trim line
      in if trimmed = [] \<or> startsWith ''//'' trimmed then JNull
         else (case parse trimmed of None \<Rightarrow> JNull | Some patch \<Rightarrow> patch))"

text \<open>
  What \<^verbatim>\<open>useUIStream\<close> of \<^verbatim>\<open>packages/react/src/hooks.ts\<close> does with one line:
  \<^verbatim>\<open>const patch = parsePatchLine(line); if (patch) { currentTree = applyPatch(currentTree, patch); setTree({ ...currentTree }) }\<close>.
  An exception of \<^verbatim>\<open>applyPatch\<close> leaves the loop.
\<close>

definition process_line :: "(string \<Rightarrow> json option) \<Rightarrow> UITree \<Rightarrow> string \<Rightarrow> error + UITree" where
  "process_line parse currentTree line =
     (let patch = parsePatchLine parse line
      in if truthy patch then applyPatch_hooks currentTree patch else Inr currentTree)"

text \<open>
  \<^verbatim>\<open>for (const line of lines)\<close>: the tree after the lines, and the exception that
  stopped the loop if one did. The tree returned is the last one committed with
  \<^verbatim>\<open>setTree\<close>.
\<close>

fun process_lines ::
  "(string \<Rightarrow> json option) \<Rightarrow> UITree \<Rightarrow> string list \<Rightarrow> UITree \<times> error option" where
  "process_lines parse currentTree [] = (currentTree, None)"
| "process_lines parse currentTree (line # rest) =
     (case process_line parse currentTree line of
        Inl e \<Rightarrow> (currentTree, Some e)
      | Inr nextTree \<Rightarrow> process_lines parse nextTree rest)"

text \<open>\<^verbatim>\<open>lines.pop()\<close>: the last entry, \<^verbatim>\<open>undefined\<close> on an empty array, and the rest.\<close>

definition pop :: "'a list \<Rightarrow> 'a option \<times> 'a list" where
  "pop xs = (if xs = [] then (None, []) else (Some (last xs), butlast xs))"

text \<open>
  The \<^verbatim>\<open>while (true)\<close> loop over the chunks the reader delivers, each already
  decoded to text: \<^verbatim>\<open>buffer += chunk; lines = buffer.split("\n"); buffer = lines.pop() ?? ""\<close>.
  It returns the buffer and the tree when the source is done, or the exception.
\<close>

fun read_loop ::
  "(string \<Rightarrow> json option) \<Rightarrow> string \<Rightarrow> UITree \<Rightarrow> string list
     \<Rightarrow> (string \<times> UITree) \<times> error option" where
  "read_loop parse buffer currentTree [] = ((buffer, currentTree), None)"
| "read_loop parse buffer currentTree (chunk # rest) =
     (case pop (split_on CHR 0x0A (buffer @ chunk)) of
        (last_line, lines) \<Rightarrow>
          (let buffer' = (case last_line of None \<Rightarrow> [] | Some b \<Rightarrow> b)
           in case process_lines parse currentTree lines of
                (t, Some e) \<Rightarrow> ((buffer', t), Some e)
              | (t, None) \<Rightarrow> read_loop parse buffer' t rest))"

text \<open>\<^verbatim>\<open>if (buffer.trim()) { ... }\<close> after the loop: the remaining fragment as a last line.\<close>

definition process_rest ::
  "(string \<Rightarrow> json option) \<Rightarrow> string \<Rightarrow> UITree \<Rightarrow> UITree \<times> error option" where
  "process_rest parse buffer currentTree =
     (if trim buffer \<noteq> [] then
        (case process_line parse currentTree buffer of
           Inl e \<Rightarrow> (currentTree, Some e)
         | Inr nextTree \<Rightarrow> (nextTree, None))
      else (currentTree, None))"

text \<open>The loop over a source that completes, followed by the handling of the rest.\<close>

definition read_stream ::
  "(string \<Rightarrow> json option) \<Rightarrow> UITree \<Rightarrow> string list \<Rightarrow> UITree \<times> error option" where
  "read_stream parse currentTree chunks =
     (case read_loop parse [] currentTree chunks of
        ((buffer, t), Some e) \<Rightarrow> (t, Some e)
      | ((buffer, t), None) \<Rightarrow> process_rest parse buffer t)"

text \<open>
  \<^verbatim>\<open>JSON.parse\<close> on two patch lines, its value on their text only; every other text
  counts as malformed. It serves the worked examples.
\<close>

definition example_parse :: "string \<Rightarrow> json option" where
  "example_parse s =
     (if s = ''{\"op\":\"set\",\"path\":\"/root\",\"value\":\"a\"}''
      then Some (JObj [''op'' \<mapsto> JStr ''set'', ''path'' \<mapsto> JStr ''/root'',
                       ''value'' \<mapsto> JStr ''a''])
      else if s = ''{\"op\":\"add\",\"path\":\"/elements/a\",\"value\":{\"key\":\"a\"}}''
      then Some (JObj [''op'' \<mapsto> JStr ''add'', ''path'' \<mapsto> JStr ''/elements/a'',
                       ''value'' \<mapsto> JObj [''key'' \<mapsto> JStr ''a'']])
      else None)"

section \<open>The streaming call\<close>

text \<open>
  An exception value: an \<^verbatim>\<open>Error\<close> with its \<^verbatim>\<open>name\<close> and the message its constructor
  was given, or an exception raised while a patch was applied.
\<close>

datatype js_error = JsError string json | Raised error

text \<open>\<^verbatim>\<open>(err as Error).name === "AbortError"\<close>\<close>

fun is_abort :: "js_error \<Rightarrow> bool" where
  "is_abort (JsError name message) = (name = ''AbortError'')"
| "is_abort (Raised e) = False"

text \<open>
  What the transport delivers. A body is the chunks its reader yields, followed by
  \<^verbatim>\<open>done\<close> (\<open>failure = None\<close>) or by a rejected read. \<open>json_body\<close> is what
  \<^verbatim>\<open>response.json()\<close> resolves to, \<open>None\<close> when it rejects.
\<close>

record body_stream =
  chunks :: "string list"
  failure :: "js_error option"

record response =
  ok :: bool
  status :: nat
  json_body :: "json option"
  body :: "body_stream option"

datatype fetch_result = FetchRejected js_error | FetchResolved response

text \<open>The state the hook returns, and the calls it made to its two callbacks.\<close>

record stream_hook =
  tree :: "UITree option"
  isStreaming :: bool
  error :: "js_error option"
  onComplete_calls :: "UITree list"
  onError_calls :: "js_error list"

text \<open>Decimal digits of a number, for \<^verbatim>\<open>`HTTP error: ${response.status}`\<close>.\<close>

fun string_of_nat :: "nat \<Rightarrow> string" where
  "string_of_nat n =
     (if n < 10 then [''0123456789'' ! n]
      else string_of_nat (n div 10) @ [''0123456789'' ! (n mod 10)])"

declare string_of_nat.simps [simp del]

text \<open>
  The message of the error thrown for a response that is not ok. Reading
  \<^verbatim>\<open>errorData.message\<close> of \<^verbatim>\<open>null\<close> throws inside the inner \<^verbatim>\<open>try\<close>, which keeps
  the default message.
\<close>

definition error_message :: "response \<Rightarrow> json" where
  "error_message r =
     (let errorMessage = JStr (''HTTP error: '' @ string_of_nat (status r))
      in case json_body r of
           None \<Rightarrow> errorMessage
         | Some errorData \<Rightarrow>
             if is_nullish errorData then errorMessage
             else if truthy (get_prop errorData ''message'') then get_prop errorData ''message''
             else if truthy (get_prop errorData ''error'') then get_prop errorData ''error''
             else errorMessage)"

text \<open>
  \<^verbatim>\<open>previousTree && previousTree.root ? { ...previousTree, elements: { ...previousTree.elements } } : { root: "", elements: {} }\<close>,
  where \<open>previousTree\<close> is \<^verbatim>\<open>context?.previousTree\<close>.
\<close>

definition start_tree :: "UITree option \<Rightarrow> UITree" where
  "start_tree previousTree =
     (case previousTree of
        None \<Rightarrow> \<lparr>root = JStr [], elements = Map.empty\<rparr>
      | Some p \<Rightarrow> if truthy (root p) then p else \<lparr>root = JStr [], elements = Map.empty\<rparr>)"

text \<open>
  The \<^verbatim>\<open>try\<close> block of \<^verbatim>\<open>send\<close>: the last tree committed with \<^verbatim>\<open>setTree\<close>, and the
  exception that ended the block if one did.
\<close>

definition try_block ::
  "(string \<Rightarrow> json option) \<Rightarrow> fetch_result \<Rightarrow> UITree \<Rightarrow> UITree \<times> js_error option" where
  "try_block parse result currentTree =
     (case result of
        FetchRejected e \<Rightarrow> (currentTree, Some e)
      | FetchResolved r \<Rightarrow>
          if \<not> ok r then (currentTree, Some (JsError ''Error'' (error_message r)))
          else (case body r of
                  None \<Rightarrow> (currentTree, Some (JsError ''Error'' (JStr ''No response body'')))
                | Some b \<Rightarrow>
                    (case read_loop parse [] currentTree (chunks b) of
                       ((buffer, t), Some e) \<Rightarrow> (t, Some (Raised e))
                     | ((buffer, t), None) \<Rightarrow>
                         (case failure b of
                            Some e \<Rightarrow> (t, Some e)
                          | None \<Rightarrow>
                              (case process_rest parse buffer t of
                                 (t', Some e) \<Rightarrow> (t', Some (Raised e))
                               | (t', None) \<Rightarrow> (t', None))))))"

text \<open>
  \<^verbatim>\<open>send(prompt, context)\<close> as a function of what the transport delivers. The three
  state setters run before the request is made; the \<^verbatim>\<open>catch\<close> clause returns silently
  on an abort, and \<^verbatim>\<open>finally\<close> clears the streaming flag.
\<close>

definition send ::
  "(string \<Rightarrow> json option) \<Rightarrow> fetch_result \<Rightarrow> UITree option \<Rightarrow> stream_hook \<Rightarrow> stream_hook" where
  "send parse result previousTree s =
     (let currentTree = start_tree previousTree;
          started = s\<lparr>isStreaming := True, error := None, tree := Some currentTree\<rparr>
      in case try_block parse result currentTree of
           (t, None) \<Rightarrow>
             started\<lparr>tree := Some t, onComplete_calls := onComplete_calls started @ [t],
                      isStreaming := False\<rparr>
         | (t, Some e) \<Rightarrow>
             if is_abort e then started\<lparr>tree := Some t, isStreaming := False\<rparr>
             else started\<lparr>tree := Some t, error := Some e,
                           onError_calls := onError_calls started @ [e],
                           isStreaming := False\<rparr>)"

section \<open>Validation context\<close>

record ValidationResult =
  valid :: bool
  errors :: "string list"

record FieldValidationState =
  touched :: bool
  validated :: bool
  result :: "ValidationResult option"

text \<open>
  The provider's state: the data model it reads, the field states, and the registered
  field configurations in the order \<^verbatim>\<open>Object.entries\<close> lists them. \<^verbatim>\<open>runValidation\<close> is
  imported from the core package; it is the parameter \<open>run\<close>, applied to a configuration,
  the value at the field's path and the data model (the custom functions and the auth
  state are fixed for a provider).
\<close>

record 'c validation =
  data :: json
  fieldStates :: "string \<Rightarrow> FieldValidationState option"
  fieldConfigs :: "(string \<times> 'c) list"

text \<open>\<^verbatim>\<open>registerField\<close>: \<^verbatim>\<open>{ ...prev, [path]: config }\<close>.\<close>

fun assign_entry :: "string \<Rightarrow> 'c \<Rightarrow> (string \<times> 'c) list \<Rightarrow> (string \<times> 'c) list" where
  "assign_entry path config [] = [(path, config)]"
| "assign_entry path config ((p, c) # rest) =
     (if p = path then (p, config) # rest else (p, c) # assign_entry path config rest)"

definition registerField :: "string \<Rightarrow> 'c \<Rightarrow> 'c validation \<Rightarrow> 'c validation" where
  "registerField path config s = s\<lparr>fieldConfigs := assign_entry path config (fieldConfigs s)\<rparr>"

text \<open>\<^verbatim>\<open>validate(path, config)\<close>: the new state and the result it returns.\<close>

definition validate ::
  "('c \<Rightarrow> json \<Rightarrow> json \<Rightarrow> ValidationResult) \<Rightarrow> 'c validation \<Rightarrow> string \<Rightarrow> 'c
     \<Rightarrow> error + ('c validation \<times> ValidationResult)" where
  "validate run s path config =
     (let dataModel = data s
      in case getByPath dataModel (JStr path) of
           Inl e \<Rightarrow> Inl e
         | Inr v \<Rightarrow>
             (let res = run config v dataModel
              in Inr (s\<lparr>fieldStates := (fieldStates s)(path \<mapsto>
                           \<lparr>touched = (case fieldStates s path of
                                          None \<Rightarrow> True | Some prev \<Rightarrow> touched prev),
                            validated = True,
                            result = Some res\<rparr>)\<rparr>,
                      res)))"

text \<open>The loop of \<^verbatim>\<open>validateAll\<close> over the entries, \<open>allValid\<close> being its variable.\<close>

fun validate_entries ::
  "('c \<Rightarrow> json \<Rightarrow> json \<Rightarrow> ValidationResult) \<Rightarrow> 'c validation \<Rightarrow> bool \<Rightarrow> (string \<times> 'c) list
     \<Rightarrow> error + ('c validation \<times> bool)" where
  "validate_entries run s allValid [] = Inr (s, allValid)"
| "validate_entries run s allValid ((path, config) # rest) =
     (case validate run s path config of
        Inl e \<Rightarrow> Inl e
      | Inr (s', res) \<Rightarrow>
          validate_entries run s' (if \<not> valid res then False else allValid) rest)"

definition validateAll ::
  "('c \<Rightarrow> json \<Rightarrow> json \<Rightarrow> ValidationResult) \<Rightarrow> 'c validation
     \<Rightarrow> error + ('c validation \<times> bool)" where
  "validateAll run s = validate_entries run s True (fieldConfigs s)"

text \<open>The value \<^verbatim>\<open>getByPath\<close> returns when its path is a string.\<close>

definition value_at :: "json \<Rightarrow> string \<Rightarrow> json" where
  "value_at obj p = (if p = [] \<or> p = ''/'' then obj else get_walk obj (path_segments p))"

text \<open>
  An instance of \<open>run\<close> for the worked example: a configuration is the message of a
  single \<^verbatim>\<open>required\<close> check, which passes on a truthy value.
\<close>

definition required_check :: "string \<Rightarrow> json \<Rightarrow> json \<Rightarrow> ValidationResult" where
  "required_check message v dm =
     (if truthy v then \<lparr>valid = True, errors = []\<rparr>
      else \<lparr>valid = False, errors = [message]\<rparr>)"

section \<open>Action engine\<close>

text \<open>
  An action as the provider receives it. A mutation (an entry of \<open>onSuccess\<close> or
  \<open>onError\<close>) assigns to a path a literal or the outcome of the handler.
\<close>

datatype mutation_value = Literal json | FromOutcome

record Action =
  name :: string
  params :: "(string \<times> json) list"
  confirm :: "json option"
  onSuccess :: "(string \<times> mutation_value) list"
  onError :: "(string \<times> mutation_value) list"

text \<open>
  A handler is called with the parameters and resolves with a result or rejects with a
  message.
\<close>

datatype handler_result = Resolves json | Rejects string

type_synonym ActionHandler = "(string \<times> json) list \<Rightarrow> handler_result"

text \<open>
  The pending record. Its \<^verbatim>\<open>resolve\<close> and \<^verbatim>\<open>reject\<close> callbacks are the code that
  \<open>confirm_pending\<close> and \<open>cancel_pending\<close> below run.
\<close>

record PendingConfirmation =
  action :: Action
  handler :: ActionHandler

text \<open>
  The provider's signals and the data model, with two logs: the arguments of every
  handler call, and the console warnings.
\<close>

record engine =
  dataModel :: json
  handlers :: "string \<Rightarrow> ActionHandler option"
  loadingActions :: "string set"
  pendingConfirmation :: "PendingConfirmation option"
  invocations :: "(string \<times> (string \<times> json) list) list"
  warnings :: "string list"

datatype execution = Completed | Failed string | Threw error













section \<open>Properties of path addressing and dynamic values\<close>

lemma split_on_nonempty: "split_on c s \<noteq> []"
  by (induction s) (auto split: list.splits)

lemma split_on_no_sep: "c \<notin> set s \<Longrightarrow> split_on c s = [s]"
  by (induction s) auto

lemma split_on_append_sep:
  "c \<notin> set k \<Longrightarrow> split_on c (k @ c # rest) = k # split_on c rest"
  by (induction k) auto

text \<open>
  C2 (evaluation at the failing input). \<^verbatim>\<open>setByPath({a: null}, "/a/b", 1)\<close>: the
  intermediate \<^verbatim>\<open>null\<close> passes the test \<^verbatim>\<open>typeof current[segment] !== "object"\<close>, so
  it is not replaced by an empty mapping, and the assignment of the final segment is made
  on \<^verbatim>\<open>null\<close>, which throws a \<^verbatim>\<open>TypeError\<close>.
\<close>

theorem setByPath_null_intermediate_throws:
  "setByPath (JObj [''a'' \<mapsto> JNull]) ''/a/b'' (JNum 1) = Inl TypeError"
  by (simp add: setByPath_def path_segments_def startsWith_def)

text \<open>
  C10. A value that is an object (\<^verbatim>\<open>typeof\<close> is \<^verbatim>\<open>"object"\<close>, and it is not
  \<^verbatim>\<open>null\<close>) and has a \<^verbatim>\<open>path\<close> property is resolved as a data reference:
  \<^verbatim>\<open>resolveDynamicValue\<close> returns what \<^verbatim>\<open>getByPath(dataModel, value.path)\<close> returns, the
  value itself is not what comes back. \<^verbatim>\<open>null\<close> and \<^verbatim>\<open>undefined\<close> resolve to
  \<^verbatim>\<open>undefined\<close>.
\<close>

theorem resolveDynamicValue_reference:
  "(typeof v = TObject \<and> \<not> is_nullish v \<and> has_prop v ''path''
      \<longrightarrow> resolveDynamicValue v dm = getByPath dm (get_prop v ''path''))
   \<and> resolveDynamicValue JNull dm = Inr JUndefined
   \<and> resolveDynamicValue JUndefined dm = Inr JUndefined"
  by (simp add: resolveDynamicValue_def)

theorem resolveDynamicValue_reference_witness:
  "resolveDynamicValue (JObj [''path'' \<mapsto> JStr ''/refund/amount''])
      (JObj [''refund'' \<mapsto> JObj [''amount'' \<mapsto> JNum 50]]) = Inr (JNum 50)
   \<and> resolveDynamicValue JNull (JObj [''refund'' \<mapsto> JObj [''amount'' \<mapsto> JNum 50]])
       = Inr JUndefined"
  using resolveDynamicValue_reference
          [of "JObj [''path'' \<mapsto> JStr ''/refund/amount'']"
              "JObj [''refund'' \<mapsto> JObj [''amount'' \<mapsto> JNum 50]]"]
  by (simp add: getByPath_def path_segments_def startsWith_def)

section \<open>Properties of the tree reducer\<close>

text \<open>What a whole-element patch with op set, add or replace does.\<close>

lemma whole_element_patch:
  assumes "\<not> is_nullish patch"
    and "get_prop patch ''op'' \<in> {JStr ''set'', JStr ''add'', JStr ''replace''}"
    and "get_prop patch ''path'' = JStr (''/elements/'' @ k)"
    and "CHR ''/'' \<notin> set k"
  shows "applyPatch t patch =
           Inr (if k = [] then t
                else t\<lparr>elements := assign_element (elements t) k (get_prop patch ''value'')\<rparr>)"
proof -
  have sw: "startsWith ''/elements/'' (''/elements/'' @ k)"
    by (simp add: startsWith_def)
  have sp: "split_on CHR ''/'' k = [k]"
    using assms(4) by (rule split_on_no_sep)
  show ?thesis
    using assms(1,2) sw
    unfolding applyPatch_def applyPatch_hooks_def apply_set_def assms(3)
    by (simp add: Let_def sp del: split_on.simps)
qed

text \<open>
  A field patch (op set, add or replace, path \<^verbatim>\<open>/elements/x/sub\<close>) returns the tree it
  was given when the tree has no element with key \<open>x\<close> and \<open>x\<close> does not name a member
  of \<^verbatim>\<open>Object.prototype\<close>.
\<close>

lemma field_patch_absent_key:
  assumes "elements t x = None"
    and "x \<notin> set object_prototype_members"
    and "CHR ''/'' \<notin> set x"
    and "\<not> is_nullish patch"
    and "get_prop patch ''op'' \<in> {JStr ''set'', JStr ''add'', JStr ''replace''}"
    and "get_prop patch ''path'' = JStr (''/elements/'' @ x @ CHR ''/'' # sub)"
  shows "applyPatch t patch = Inr t"
proof -
  let ?p = "''/elements/'' @ x @ CHR ''/'' # sub"
  have sw: "startsWith ''/elements/'' ?p"
    by (simp add: startsWith_def)
  have sp: "split_on CHR ''/'' (x @ CHR ''/'' # sub) = x # split_on CHR ''/'' sub"
    using assms(3) by (rule split_on_append_sep)
  have ne: "?p \<noteq> ''/root''"
    by simp
  have len: "length (split_on CHR ''/'' sub) \<noteq> 0"
    using split_on_nonempty by simp
  have lk: "lookup_element (elements t) x = Value JUndefined"
    using assms(1,2) by (simp add: lookup_element_def)
  show ?thesis
    using assms(4,5) sw ne len
    unfolding applyPatch_def applyPatch_hooks_def apply_set_def assms(6)
    by (simp add: Let_def sp lk del: split_on.simps)
qed

text \<open>
  C3 (evaluation at the failing input). The tree has no element at all, and the patch is
  \<^verbatim>\<open>{op:"replace", path:"/elements/constructor/props/title", value:"T"}\<close>. The read
  \<^verbatim>\<open>newTree.elements["constructor"]\<close> finds the function every object inherits, which
  is truthy, so the guard \<^verbatim>\<open>if (element)\<close> passes: \<^verbatim>\<open>applyPatch\<close> spreads it to an empty
  object, sets \<^verbatim>\<open>props.title\<close> in that and stores it. The tree returned has an element
  \<^verbatim>\<open>constructor\<close> which the input tree does not have.
\<close>

theorem applyPatch_field_patch_inherited_key:
  "applyPatch \<lparr>root = JStr [], elements = Map.empty\<rparr>
     (JObj [''op'' \<mapsto> JStr ''replace'',
            ''path'' \<mapsto> JStr ''/elements/constructor/props/title'',
            ''value'' \<mapsto> JStr ''T''])
   = Inr \<lparr>root = JStr [],
          elements = [''constructor'' \<mapsto> JObj [''props'' \<mapsto> JObj [''title'' \<mapsto> JStr ''T'']]]\<rparr>"
  by (simp add: applyPatch_def applyPatch_hooks_def apply_set_def startsWith_def Let_def
        lookup_element_def object_prototype_members_def assign_element_def
        setByPath_def path_segments_def)

lemma assign_element_twist:
  "k1 \<noteq> k2 \<Longrightarrow>
   assign_element (assign_element m k1 v1) k2 v2 = assign_element (assign_element m k2 v2) k1 v1"
  by (auto simp: assign_element_def fun_upd_twist)

text \<open>
  C5. Two whole-element patches (op set, add or replace, paths \<^verbatim>\<open>/elements/k1\<close> and
  \<^verbatim>\<open>/elements/k2\<close>) for two distinct keys: applied to any tree in either order, they give
  the same tree, and neither order throws.
\<close>

theorem applyPatch_whole_element_order_independent:
  assumes "\<not> is_nullish p1" and "\<not> is_nullish p2"
    and "get_prop p1 ''op'' \<in> {JStr ''set'', JStr ''add'', JStr ''replace''}"
    and "get_prop p2 ''op'' \<in> {JStr ''set'', JStr ''add'', JStr ''replace''}"
    and "get_prop p1 ''path'' = JStr (''/elements/'' @ k1)"
    and "get_prop p2 ''path'' = JStr (''/elements/'' @ k2)"
    and "CHR ''/'' \<notin> set k1" and "CHR ''/'' \<notin> set k2"
    and "k1 \<noteq> k2"
  shows "then_patch (applyPatch t p1) p2 = then_patch (applyPatch t p2) p1
         \<and> (\<exists>t'. then_patch (applyPatch t p1) p2 = Inr t')"
proof -
  note w1 = whole_element_patch [OF assms(1) assms(3) assms(5) assms(7)]
  note w2 = whole_element_patch [OF assms(2) assms(4) assms(6) assms(8)]
  show ?thesis
    using assms(9) by (simp add: then_patch_def w1 w2 assign_element_twist)
qed

theorem applyPatch_whole_element_order_independent_witness:
  "then_patch
     (applyPatch \<lparr>root = JStr ''a'', elements = Map.empty\<rparr>
        (JObj [''op'' \<mapsto> JStr ''add'', ''path'' \<mapsto> JStr ''/elements/a'',
               ''value'' \<mapsto> JObj [''key'' \<mapsto> JStr ''a'']]))
     (JObj [''op'' \<mapsto> JStr ''set'', ''path'' \<mapsto> JStr ''/elements/b'',
            ''value'' \<mapsto> JObj [''key'' \<mapsto> JStr ''b'']])
   = then_patch
     (applyPatch \<lparr>root = JStr ''a'', elements = Map.empty\<rparr>
        (JObj [''op'' \<mapsto> JStr ''set'', ''path'' \<mapsto> JStr ''/elements/b'',
               ''value'' \<mapsto> JObj [''key'' \<mapsto> JStr ''b'']]))
     (JObj [''op'' \<mapsto> JStr ''add'', ''path'' \<mapsto> JStr ''/elements/a'',
            ''value'' \<mapsto> JObj [''key'' \<mapsto> JStr ''a'']])"
  using applyPatch_whole_element_order_independent
          [of "JObj [''op'' \<mapsto> JStr ''add'', ''path'' \<mapsto> JStr ''/elements/a'',
                     ''value'' \<mapsto> JObj [''key'' \<mapsto> JStr ''a'']]"
              "JObj [''op'' \<mapsto> JStr ''set'', ''path'' \<mapsto> JStr ''/elements/b'',
                     ''value'' \<mapsto> JObj [''key'' \<mapsto> JStr ''b'']]"
              "''a''" "''b''" "\<lparr>root = JStr ''a'', elements = Map.empty\<rparr>"]
  by simp

lemma startsWith_split: "startsWith p s \<Longrightarrow> s = p @ drop (length p) s"
  unfolding startsWith_def by (metis append_take_drop_id)

lemma remove_keeps_root:
  assumes "get_prop patch ''op'' = JStr ''remove''" and "applyPatch t patch = Inr t'"
  shows "root t' = root t"
proof (cases "as_string (get_prop patch ''path'')")
  case (Inl e)
  with assms show ?thesis
    by (simp add: applyPatch_def applyPatch_hooks_def apply_remove_def split: if_splits)
next
  case (Inr path)
  with assms show ?thesis
    by (auto simp add: applyPatch_def applyPatch_hooks_def apply_remove_def Let_def
             split: if_splits)
qed

lemma remove_changes_addressed_entry:
  assumes "get_prop patch ''op'' = JStr ''remove''" and "applyPatch t patch = Inr t'"
    and "elements t' k \<noteq> elements t k"
  shows "elements t' k = None
         \<and> (\<exists>q. get_prop patch ''path'' = JStr (''/elements/'' @ q)
                 \<and> (case split_on CHR ''/'' q of [] \<Rightarrow> [] | key # _ \<Rightarrow> key) = k)"
proof (cases "as_string (get_prop patch ''path'')")
  case (Inl e)
  with assms show ?thesis
    by (simp add: applyPatch_def applyPatch_hooks_def apply_remove_def split: if_splits)
next
  case (Inr path)
  then have pa: "get_prop patch ''path'' = JStr path"
    by (cases "get_prop patch ''path''") simp_all
  have sw: "startsWith ''/elements/'' path"
    using assms Inr
    by (auto simp add: applyPatch_def applyPatch_hooks_def apply_remove_def Let_def
             split: if_splits)
  have len: "length ''/elements/'' = (10::nat)"
    by simp
  have pq: "path = ''/elements/'' @ drop 10 path"
    using startsWith_split [OF sw] unfolding len .
  have "elements t' k = None
        \<and> (case split_on CHR ''/'' (drop 10 path) of [] \<Rightarrow> [] | key # _ \<Rightarrow> key) = k"
    using assms Inr sw
    by (auto simp add: applyPatch_def applyPatch_hooks_def apply_remove_def Let_def
             split: if_splits)
  then show ?thesis
    using pa pq by metis
qed

text \<open>
  C9. A remove patch whose path is a string that does not start with \<^verbatim>\<open>/elements/\<close>
  (\<^verbatim>\<open>/root\<close> is one) returns a tree equal to its input. Whatever its path is, a remove
  patch that returns leaves \<open>root\<close> as it was, and the only entry of the element map it
  can change is the one its path addresses as \<^verbatim>\<open>/elements/{key}\<close>, which it deletes.
\<close>

theorem applyPatch_remove_outside_elements:
  "(\<not> is_nullish patch \<and> get_prop patch ''op'' = JStr ''remove''
      \<and> get_prop patch ''path'' = JStr p \<and> \<not> startsWith ''/elements/'' p
     \<longrightarrow> applyPatch t patch = Inr t)
   \<and> (get_prop patch ''op'' = JStr ''remove'' \<and> applyPatch t patch = Inr t'
     \<longrightarrow> root t' = root t
         \<and> (\<forall>k. elements t' k \<noteq> elements t k \<longrightarrow>
               elements t' k = None
               \<and> (\<exists>q. get_prop patch ''path'' = JStr (''/elements/'' @ q)
                       \<and> (case split_on CHR ''/'' q of [] \<Rightarrow> [] | key # _ \<Rightarrow> key) = k)))"
proof (intro conjI impI allI)
  assume "\<not> is_nullish patch \<and> get_prop patch ''op'' = JStr ''remove''
      \<and> get_prop patch ''path'' = JStr p \<and> \<not> startsWith ''/elements/'' p"
  then show "applyPatch t patch = Inr t"
    by (simp add: applyPatch_def applyPatch_hooks_def apply_remove_def)
next
  assume "get_prop patch ''op'' = JStr ''remove'' \<and> applyPatch t patch = Inr t'"
  then show "root t' = root t"
    using remove_keeps_root by blast
next
  fix k
  assume "get_prop patch ''op'' = JStr ''remove'' \<and> applyPatch t patch = Inr t'"
    and "elements t' k \<noteq> elements t k"
  then show "elements t' k = None"
    using remove_changes_addressed_entry by blast
next
  fix k
  assume "get_prop patch ''op'' = JStr ''remove'' \<and> applyPatch t patch = Inr t'"
    and "elements t' k \<noteq> elements t k"
  then show "\<exists>q. get_prop patch ''path'' = JStr (''/elements/'' @ q)
                 \<and> (case split_on CHR ''/'' q of [] \<Rightarrow> [] | key # _ \<Rightarrow> key) = k"
    using remove_changes_addressed_entry by blast
qed

theorem applyPatch_remove_outside_elements_witness:
  "applyPatch \<lparr>root = JStr ''a'', elements = [''a'' \<mapsto> JObj [''key'' \<mapsto> JStr ''a'']]\<rparr>
     (JObj [''op'' \<mapsto> JStr ''remove'', ''path'' \<mapsto> JStr ''/root''])
   = Inr \<lparr>root = JStr ''a'', elements = [''a'' \<mapsto> JObj [''key'' \<mapsto> JStr ''a'']]\<rparr>
   \<and> applyPatch \<lparr>root = JStr ''a'', elements = [''a'' \<mapsto> JObj [''key'' \<mapsto> JStr ''a'']]\<rparr>
     (JObj [''op'' \<mapsto> JStr ''remove'', ''path'' \<mapsto> JStr ''/elements/a''])
   = Inr \<lparr>root = JStr ''a'', elements = Map.empty\<rparr>"
  using applyPatch_remove_outside_elements
          [of "JObj [''op'' \<mapsto> JStr ''remove'', ''path'' \<mapsto> JStr ''/root'']" "''/root''"
              "\<lparr>root = JStr ''a'', elements = [''a'' \<mapsto> JObj [''key'' \<mapsto> JStr ''a'']]\<rparr>"
              "\<lparr>root = JStr ''a'', elements = [''a'' \<mapsto> JObj [''key'' \<mapsto> JStr ''a'']]\<rparr>"]
        applyPatch_remove_outside_elements
          [of "JObj [''op'' \<mapsto> JStr ''remove'', ''path'' \<mapsto> JStr ''/elements/a'']"
              "''/elements/a''"
              "\<lparr>root = JStr ''a'', elements = [''a'' \<mapsto> JObj [''key'' \<mapsto> JStr ''a'']]\<rparr>"
              "\<lparr>root = JStr ''a'', elements = Map.empty\<rparr>"]
  by (simp add: startsWith_def applyPatch_def applyPatch_hooks_def apply_remove_def)

section \<open>Properties of the patch stream processor\<close>

lemma split_on_append:
  "split_on c (a @ b) = butlast (split_on c a) @ split_on c (last (split_on c a) @ b)"
proof (induction a)
  case Nil
  show ?case by simp
next
  case (Cons x xs)
  obtain y ys where sp: "split_on c xs = y # ys"
    using split_on_nonempty [of c xs] by (cases "split_on c xs") auto
  show ?case
  proof (cases "x = c")
    case True
    then show ?thesis using Cons.IH sp by simp
  next
    case False
    show ?thesis
    proof (cases ys)
      case Nil
      then show ?thesis using Cons.IH sp False by simp
    next
      case (Cons z zs)
      then show ?thesis using Cons.IH sp False by simp
    qed
  qed
qed

lemma split_on_parts_no_sep: "s \<in> set (split_on c a) \<Longrightarrow> c \<notin> set s"
  by (induction a arbitrary: s) (auto split: if_splits list.splits)

lemma last_split_on_no_sep: "c \<notin> set (last (split_on c a))"
  using split_on_parts_no_sep [of "last (split_on c a)" c a] split_on_nonempty [of c a]
  by simp

lemma process_lines_append:
  "process_lines parse t (xs @ ys) =
     (case process_lines parse t xs of
        (t', Some e) \<Rightarrow> (t', Some e)
      | (t', None) \<Rightarrow> process_lines parse t' ys)"
  by (induction xs arbitrary: t) (auto split: sum.splits)

text \<open>
  The loop and the handling of the rest amount to this: split the whole text, process
  every line but the last, then the last as the rest. The buffer never holds a newline.
\<close>

lemma read_loop_whole_text:
  "CHR 0x0A \<notin> set buffer \<Longrightarrow>
   (case read_loop parse buffer t cs of
      ((b, t'), Some e) \<Rightarrow> (t', Some e)
    | ((b, t'), None) \<Rightarrow> process_rest parse b t')
   = (case process_lines parse t (butlast (split_on CHR 0x0A (buffer @ concat cs))) of
        (t', Some e) \<Rightarrow> (t', Some e)
      | (t', None) \<Rightarrow> process_rest parse (last (split_on CHR 0x0A (buffer @ concat cs))) t')"
proof (induction cs arbitrary: buffer t)
  case Nil
  then show ?case by (simp add: split_on_no_sep)
next
  case (Cons chunk rest)
  let ?L = "split_on CHR 0x0A (buffer @ chunk)"
  have ne: "?L \<noteq> []" by (rule split_on_nonempty)
  have nl: "CHR 0x0A \<notin> set (last ?L)" by (rule last_split_on_no_sep)
  have sp: "split_on CHR 0x0A (buffer @ concat (chunk # rest))
            = butlast ?L @ split_on CHR 0x0A (last ?L @ concat rest)"
    using split_on_append [of "CHR 0x0A" "buffer @ chunk" "concat rest"] by simp
  have bl: "butlast (split_on CHR 0x0A (buffer @ concat (chunk # rest)))
            = butlast ?L @ butlast (split_on CHR 0x0A (last ?L @ concat rest))"
    unfolding sp by (simp add: butlast_append split_on_nonempty)
  have la: "last (split_on CHR 0x0A (buffer @ concat (chunk # rest)))
            = last (split_on CHR 0x0A (last ?L @ concat rest))"
    unfolding sp by (simp add: split_on_nonempty)
  obtain t1 r1 where pl: "process_lines parse t (butlast ?L) = (t1, r1)"
    by (cases "process_lines parse t (butlast ?L)")
  show ?case
  proof (cases r1)
    case (Some e)
    then show ?thesis
      using pl ne unfolding bl la
      by (simp add: pop_def process_lines_append del: split_on.simps)
  next
    case None
    have "(case read_loop parse buffer t (chunk # rest) of
            ((b, t'), Some e) \<Rightarrow> (t', Some e)
          | ((b, t'), None) \<Rightarrow> process_rest parse b t')
          = (case read_loop parse (last ?L) t1 rest of
            ((b, t'), Some e) \<Rightarrow> (t', Some e)
          | ((b, t'), None) \<Rightarrow> process_rest parse b t')"
      using pl ne None by (simp add: pop_def del: split_on.simps)
    also have "\<dots> = (case process_lines parse t1
                          (butlast (split_on CHR 0x0A (last ?L @ concat rest))) of
        (t', Some e) \<Rightarrow> (t', Some e)
      | (t', None) \<Rightarrow> process_rest parse (last (split_on CHR 0x0A (last ?L @ concat rest))) t')"
      using Cons.IH [OF nl] .
    also have "\<dots> = (case process_lines parse t
                          (butlast (split_on CHR 0x0A (buffer @ concat (chunk # rest)))) of
        (t', Some e) \<Rightarrow> (t', Some e)
      | (t', None) \<Rightarrow>
          process_rest parse (last (split_on CHR 0x0A (buffer @ concat (chunk # rest)))) t')"
      using pl None unfolding bl la
      by (simp add: process_lines_append del: split_on.simps)
    finally show ?thesis .
  qed
qed

text \<open>
  C4. Whatever the chunks the text arrives in (a chunk may end in the middle of a
  line, and may be empty), the read loop followed by the handling of the rest ends with
  the tree, and the exception if a patch raised one, that it ends with when the whole
  text arrives as one chunk.
\<close>

theorem read_stream_chunking_independent:
  "read_stream parse t cs = read_stream parse t [concat cs]"
proof -
  have "read_stream parse t cs
        = (case process_lines parse t (butlast (split_on CHR 0x0A (concat cs))) of
             (t', Some e) \<Rightarrow> (t', Some e)
           | (t', None) \<Rightarrow> process_rest parse (last (split_on CHR 0x0A (concat cs))) t')"
    unfolding read_stream_def using read_loop_whole_text [of "[]" parse t cs] by simp
  moreover have "read_stream parse t [concat cs]
        = (case process_lines parse t (butlast (split_on CHR 0x0A (concat cs))) of
             (t', Some e) \<Rightarrow> (t', Some e)
           | (t', None) \<Rightarrow> process_rest parse (last (split_on CHR 0x0A (concat cs))) t')"
    unfolding read_stream_def using read_loop_whole_text [of "[]" parse t "[concat cs]"] by simp
  ultimately show ?thesis by simp
qed

theorem read_stream_chunking_independent_witness:
  "read_stream example_parse \<lparr>root = JStr [], elements = Map.empty\<rparr>
     [''{\"op\":\"set\",\"pa'',
      ''th\":\"/root\",\"value\":\"a\"}'' @ [CHR 0x0A] @ ''{\"op\":\"add\",'',
      ''\"path\":\"/elements/a\",\"value\":{\"key\":\"a\"}}'']
   = (\<lparr>root = JStr ''a'', elements = [''a'' \<mapsto> JObj [''key'' \<mapsto> JStr ''a'']]\<rparr>, None)"
proof -
  have "read_stream example_parse \<lparr>root = JStr [], elements = Map.empty\<rparr>
     [''{\"op\":\"set\",\"path\":\"/root\",\"value\":\"a\"}'' @ [CHR 0x0A]
        @ ''{\"op\":\"add\",\"path\":\"/elements/a\",\"value\":{\"key\":\"a\"}}'']
   = (\<lparr>root = JStr ''a'', elements = [''a'' \<mapsto> JObj [''key'' \<mapsto> JStr ''a'']]\<rparr>, None)"
    by (simp add: read_stream_def pop_def process_rest_def process_line_def parsePatchLine_def
          trim_def is_ws_def startsWith_def example_parse_def applyPatch_hooks_def
          apply_set_def assign_element_def Let_def)
  then show ?thesis
    using read_stream_chunking_independent
            [of example_parse "\<lparr>root = JStr [], elements = Map.empty\<rparr>"
                "[''{\"op\":\"set\",\"pa'',
                  ''th\":\"/root\",\"value\":\"a\"}'' @ [CHR 0x0A] @ ''{\"op\":\"add\",'',
                  ''\"path\":\"/elements/a\",\"value\":{\"key\":\"a\"}}'']"]
    by simp
qed

text \<open>
  C7. A line whose trimmed text is empty, starts with \<^verbatim>\<open>//\<close> or is rejected by
  \<^verbatim>\<open>JSON.parse\<close> makes \<^verbatim>\<open>parsePatchLine\<close> return \<^verbatim>\<open>null\<close>; the stream processor then
  leaves the tree as it is, raises nothing and goes on with the next line. A line whose
  trimmed text is not empty, is no comment and parses, makes \<^verbatim>\<open>parsePatchLine\<close> return
  the parsed value. (\<^verbatim>\<open>JSON.parse\<close> is applied to the trimmed text.)
\<close>

theorem parsePatchLine_skips_or_parses:
  "(trim line = [] \<or> startsWith ''//'' (trim line) \<or> parse (trim line) = None
      \<longrightarrow> parsePatchLine parse line = JNull
          \<and> process_line parse t line = Inr t
          \<and> process_lines parse t (line # rest) = process_lines parse t rest)
   \<and> (trim line \<noteq> [] \<and> \<not> startsWith ''//'' (trim line) \<and> parse (trim line) = Some v
      \<longrightarrow> parsePatchLine parse line = v)"
  by (auto simp: parsePatchLine_def process_line_def Let_def)

theorem parsePatchLine_skips_or_parses_witness:
  "parsePatchLine example_parse ''  // note'' = JNull
   \<and> process_lines example_parse \<lparr>root = JStr ''a'', elements = Map.empty\<rparr>
        [''  // note'', '' {oops '', ''   '']
      = (\<lparr>root = JStr ''a'', elements = Map.empty\<rparr>, None)
   \<and> parsePatchLine example_parse
        ('' {\"op\":\"set\",\"path\":\"/root\",\"value\":\"a\"}'' @ [CHR 0x0D])
      = JObj [''op'' \<mapsto> JStr ''set'', ''path'' \<mapsto> JStr ''/root'', ''value'' \<mapsto> JStr ''a'']"
  using parsePatchLine_skips_or_parses
          [of "''  // note''" example_parse "\<lparr>root = JStr ''a'', elements = Map.empty\<rparr>"
              "['' {oops '', ''   '']"]
        parsePatchLine_skips_or_parses
          [of "'' {oops ''" example_parse "\<lparr>root = JStr ''a'', elements = Map.empty\<rparr>"
              "[''   '']"]
        parsePatchLine_skips_or_parses
          [of "''   ''" example_parse "\<lparr>root = JStr ''a'', elements = Map.empty\<rparr>" "[]"]
        parsePatchLine_skips_or_parses
          [of "'' {\"op\":\"set\",\"path\":\"/root\",\"value\":\"a\"}'' @ [CHR 0x0D]"
              example_parse "\<lparr>root = JStr ''a'', elements = Map.empty\<rparr>" "[]"
              "JObj [''op'' \<mapsto> JStr ''set'', ''path'' \<mapsto> JStr ''/root'',
                     ''value'' \<mapsto> JStr ''a'']"]
  by (simp add: trim_def is_ws_def startsWith_def example_parse_def)

section \<open>Properties of the streaming call\<close>

text \<open>
  C1 (counterexample). The tree value held a tree with root \<^verbatim>\<open>a\<close>; \<^verbatim>\<open>send\<close> is called
  with no previous tree in its context and \<^verbatim>\<open>fetch\<close> rejects with a network error.
  The tree value is not what it was: \<^verbatim>\<open>send\<close> had set it to the empty tree before the
  request was made.
\<close>

theorem send_failure_changes_tree:
  "tree (send example_parse
           (FetchRejected (JsError ''TypeError'' (JStr ''Failed to fetch''))) None
           \<lparr>tree = Some \<lparr>root = JStr ''a'',
                          elements = [''a'' \<mapsto> JObj [''key'' \<mapsto> JStr ''a'']]\<rparr>,
            isStreaming = False, error = None, onComplete_calls = [], onError_calls = []\<rparr>)
   \<noteq> tree \<lparr>tree = Some \<lparr>root = JStr ''a'',
                            elements = [''a'' \<mapsto> JObj [''key'' \<mapsto> JStr ''a'']]\<rparr>,
             isStreaming = False, error = None, onComplete_calls = [], onError_calls = []\<rparr>"
  by (simp add: send_def try_block_def start_tree_def)

text \<open>
  C1 (amended). When \<^verbatim>\<open>fetch\<close> rejects with an error that is not an abort, or the
  response is not ok, \<^verbatim>\<open>send\<close> stores the error in the error value, passes it to
  \<^verbatim>\<open>onError\<close>, ends with the streaming flag off and applies no patch: the tree value is
  the tree this invocation started from (the empty tree, or the copy of
  \<^verbatim>\<open>context.previousTree\<close> when that has a truthy root). When a read of the body fails
  after some chunks, the same holds with the tree value being the tree after the complete
  lines of those chunks, the last snapshot committed.
\<close>

theorem send_transport_failure:
  "((r = FetchRejected e \<and> \<not> is_abort e)
      \<or> (\<exists>resp. r = FetchResolved resp \<and> \<not> ok resp
                 \<and> e = JsError ''Error'' (error_message resp))
     \<longrightarrow> send parse r previousTree s
           = s\<lparr>isStreaming := False, error := Some e,
                tree := Some (start_tree previousTree),
                onError_calls := onError_calls s @ [e]\<rparr>)
   \<and> (r = FetchResolved resp \<and> ok resp \<and> body resp = Some b \<and> failure b = Some e
        \<and> \<not> is_abort e
        \<and> read_loop parse [] (start_tree previousTree) (chunks b) = ((buffer, t), None)
     \<longrightarrow> send parse r previousTree s
           = s\<lparr>isStreaming := False, error := Some e, tree := Some t,
                onError_calls := onError_calls s @ [e]\<rparr>)"
  by (auto simp: send_def try_block_def Let_def)

theorem send_transport_failure_witness:
  "send example_parse
     (FetchResolved \<lparr>ok = False, status = 500, json_body = None, body = None\<rparr>)
     None
     \<lparr>tree = Some \<lparr>root = JStr ''a'', elements = [''a'' \<mapsto> JObj [''key'' \<mapsto> JStr ''a'']]\<rparr>,
      isStreaming = False, error = None, onComplete_calls = [], onError_calls = []\<rparr>
   = \<lparr>tree = Some \<lparr>root = JStr [], elements = Map.empty\<rparr>,
      isStreaming = False, error = Some (JsError ''Error'' (JStr ''HTTP error: 500'')),
      onComplete_calls = [], onError_calls = [JsError ''Error'' (JStr ''HTTP error: 500'')]\<rparr>
   \<and> send example_parse
     (FetchResolved \<lparr>ok = True, status = 200, json_body = None,
        body = Some \<lparr>chunks = [''{\"op\":\"set\",\"path\":\"/root\",\"value\":\"a\"}''
                                 @ [CHR 0x0A] @ ''{\"op\"''],
                     failure = Some (JsError ''TypeError'' (JStr ''network error''))\<rparr>\<rparr>)
     None
     \<lparr>tree = None, isStreaming = False, error = None, onComplete_calls = [],
      onError_calls = []\<rparr>
   = \<lparr>tree = Some \<lparr>root = JStr ''a'', elements = Map.empty\<rparr>,
      isStreaming = False, error = Some (JsError ''TypeError'' (JStr ''network error'')),
      onComplete_calls = [], onError_calls = [JsError ''TypeError'' (JStr ''network error'')]\<rparr>"
proof -
  have loop: "read_loop example_parse [] (start_tree None)
                [''{\"op\":\"set\",\"path\":\"/root\",\"value\":\"a\"}'' @ [CHR 0x0A] @ ''{\"op\"'']
              = ((''{\"op\"'', \<lparr>root = JStr ''a'', elements = Map.empty\<rparr>), None)"
    by (simp add: start_tree_def pop_def process_line_def parsePatchLine_def trim_def is_ws_def
          startsWith_def example_parse_def applyPatch_hooks_def apply_set_def Let_def)
  have msg: "string_of_nat 500 = ''500''"
    by (simp add: string_of_nat.simps [of 500] string_of_nat.simps [of 50]
          string_of_nat.simps [of 5])
  show ?thesis
    using send_transport_failure
            [where r = "FetchResolved \<lparr>ok = False, status = 500, json_body = None, body = None\<rparr>"
               and e = "JsError ''Error'' (JStr ''HTTP error: 500'')"
               and parse = example_parse and previousTree = None
               and s = "\<lparr>tree = Some \<lparr>root = JStr ''a'',
                                        elements = [''a'' \<mapsto> JObj [''key'' \<mapsto> JStr ''a'']]\<rparr>,
                         isStreaming = False, error = None, onComplete_calls = [],
                         onError_calls = []\<rparr>"]
          send_transport_failure
            [where r = "FetchResolved \<lparr>ok = True, status = 200, json_body = None,
                          body = Some \<lparr>chunks = [''{\"op\":\"set\",\"path\":\"/root\",\"value\":\"a\"}''
                                                   @ [CHR 0x0A] @ ''{\"op\"''],
                                       failure = Some (JsError ''TypeError''
                                                         (JStr ''network error''))\<rparr>\<rparr>"
               and resp = "\<lparr>ok = True, status = 200, json_body = None,
                          body = Some \<lparr>chunks = [''{\"op\":\"set\",\"path\":\"/root\",\"value\":\"a\"}''
                                                   @ [CHR 0x0A] @ ''{\"op\"''],
                                       failure = Some (JsError ''TypeError''
                                                         (JStr ''network error''))\<rparr>\<rparr>"
               and b = "\<lparr>chunks = [''{\"op\":\"set\",\"path\":\"/root\",\"value\":\"a\"}''
                                      @ [CHR 0x0A] @ ''{\"op\"''],
                         failure = Some (JsError ''TypeError'' (JStr ''network error''))\<rparr>"
               and e = "JsError ''TypeError'' (JStr ''network error'')"
               and parse = example_parse and previousTree = None
               and buffer = "''{\"op\"''"
               and t = "\<lparr>root = JStr ''a'', elements = Map.empty\<rparr>"
               and s = "\<lparr>tree = None, isStreaming = False, error = None,
                         onComplete_calls = [], onError_calls = []\<rparr>"]
          loop
    by (simp add: error_message_def msg start_tree_def)
qed

section \<open>Properties of the validation context\<close>

lemma getByPath_string: "getByPath obj (JStr p) = Inr (value_at obj p)"
  by (simp add: getByPath_def value_at_def)

lemma validate_result:
  "validate run s path config =
     Inr (s\<lparr>fieldStates := (fieldStates s)(path \<mapsto>
              \<lparr>touched = (case fieldStates s path of None \<Rightarrow> True | Some prev \<Rightarrow> touched prev),
               validated = True,
               result = Some (run config (value_at (data s) path) (data s))\<rparr>)\<rparr>,
          run config (value_at (data s) path) (data s))"
  by (simp add: validate_def getByPath_string Let_def)

text \<open>
  The loop of \<^verbatim>\<open>validateAll\<close> from any state and any value of its variable: it does not
  raise, it validates every entry, and its variable ends true exactly when it started true
  and every entry's result is valid.
\<close>

lemma validate_entries_result:
  "\<exists>s'. validate_entries run s b es
           = Inr (s', b \<and> list_all (\<lambda>(p, c). valid (run c (value_at (data s) p) (data s))) es)
        \<and> data s' = data s \<and> fieldConfigs s' = fieldConfigs s
        \<and> (\<forall>p. p \<notin> fst ` set es \<longrightarrow> fieldStates s' p = fieldStates s p)
        \<and> (distinct (map fst es) \<longrightarrow>
             (\<forall>(p, c) \<in> set es. \<exists>st. fieldStates s' p = Some st \<and> validated st
                 \<and> result st = Some (run c (value_at (data s) p) (data s))))"
proof (induction es arbitrary: s b)
  case Nil
  show ?case by simp
next
  case (Cons pc es)
  obtain path config where pc: "pc = (path, config)" by (cases pc)
  let ?res = "run config (value_at (data s) path) (data s)"
  let ?s1 = "s\<lparr>fieldStates := (fieldStates s)(path \<mapsto>
              \<lparr>touched = (case fieldStates s path of None \<Rightarrow> True | Some prev \<Rightarrow> touched prev),
               validated = True, result = Some ?res\<rparr>)\<rparr>"
  let ?b1 = "if \<not> valid ?res then False else b"
  from Cons.IH [of ?s1 ?b1] obtain s' where
    ih1: "validate_entries run ?s1 ?b1 es
           = Inr (s', ?b1 \<and> list_all (\<lambda>(p, c). valid (run c (value_at (data ?s1) p) (data ?s1))) es)"
    and ih2: "data s' = data ?s1" and ih3: "fieldConfigs s' = fieldConfigs ?s1"
    and ih4: "\<forall>p. p \<notin> fst ` set es \<longrightarrow> fieldStates s' p = fieldStates ?s1 p"
    and ih5: "distinct (map fst es) \<longrightarrow>
             (\<forall>(p, c) \<in> set es. \<exists>st. fieldStates s' p = Some st \<and> validated st
                 \<and> result st = Some (run c (value_at (data ?s1) p) (data ?s1)))"
    by blast
  have step: "validate_entries run s b (pc # es) = validate_entries run ?s1 ?b1 es"
    unfolding pc by (simp add: validate_result)
  have d1: "data ?s1 = data s" by simp
  have "validate_entries run s b (pc # es)
           = Inr (s', b \<and> list_all (\<lambda>(p, c). valid (run c (value_at (data s) p) (data s))) (pc # es))"
  proof -
    have "validate_entries run s b (pc # es)
           = Inr (s', ?b1 \<and> list_all (\<lambda>(p, c). valid (run c (value_at (data s) p) (data s))) es)"
      using step ih1 d1 by simp
    moreover have "(?b1 \<and> list_all (\<lambda>(p, c). valid (run c (value_at (data s) p) (data s))) es)
           = (b \<and> list_all (\<lambda>(p, c). valid (run c (value_at (data s) p) (data s))) (pc # es))"
      unfolding pc by auto
    ultimately show ?thesis by simp
  qed
  moreover have "data s' = data s" "fieldConfigs s' = fieldConfigs s"
    using ih2 ih3 by simp_all
  moreover have "\<forall>p. p \<notin> fst ` set (pc # es) \<longrightarrow> fieldStates s' p = fieldStates s p"
    using ih4 unfolding pc by simp
  moreover have "distinct (map fst (pc # es)) \<longrightarrow>
             (\<forall>(p, c) \<in> set (pc # es). \<exists>st. fieldStates s' p = Some st \<and> validated st
                 \<and> result st = Some (run c (value_at (data s) p) (data s)))"
  proof
    assume dist: "distinct (map fst (pc # es))"
    then have "path \<notin> fst ` set es" and "distinct (map fst es)"
      unfolding pc by simp_all
    then have "fieldStates s' path = fieldStates ?s1 path"
      and rest: "\<forall>(p, c) \<in> set es. \<exists>st. fieldStates s' p = Some st \<and> validated st
                 \<and> result st = Some (run c (value_at (data s) p) (data s))"
      using ih4 ih5 by simp_all
    then show "\<forall>(p, c) \<in> set (pc # es). \<exists>st. fieldStates s' p = Some st \<and> validated st
                 \<and> result st = Some (run c (value_at (data s) p) (data s))"
      unfolding pc by simp
  qed
  ultimately show ?case by blast
qed

text \<open>\<^verbatim>\<open>registerField\<close> keeps the registered paths distinct, as the keys of an object are.\<close>

lemma assign_entry_keys:
  "fst ` set (assign_entry path config es) = insert path (fst ` set es)"
proof (induction es)
  case Nil
  show ?case by simp
next
  case (Cons pc es)
  obtain p c where pc: "pc = (p, c)" by (cases pc)
  show ?case
    using Cons.IH unfolding pc by (cases "p = path") auto
qed

lemma assign_entry_distinct:
  "distinct (map fst es) \<Longrightarrow> distinct (map fst (assign_entry path config es))"
proof (induction es)
  case Nil
  show ?case by simp
next
  case (Cons pc es)
  obtain p c where pc: "pc = (p, c)" by (cases pc)
  show ?case
  proof (cases "p = path")
    case True
    then show ?thesis using Cons.prems unfolding pc by simp
  next
    case False
    have "p \<notin> fst ` set (assign_entry path config es)"
      using Cons.prems False unfolding pc assign_entry_keys by simp
    then show ?thesis
      using Cons False unfolding pc by simp
  qed
qed

lemma registerField_distinct:
  "distinct (map fst (fieldConfigs s))
     \<Longrightarrow> distinct (map fst (fieldConfigs (registerField path config s)))"
  by (simp add: registerField_def assign_entry_distinct)

text \<open>
  C8. \<^verbatim>\<open>validateAll\<close> does not raise, and returns true exactly when the validation
  result of every registered field is valid. It validates every registered field, also
  those after a field that failed: afterwards the state of every registered path is
  marked validated and holds that field's result. (The registered paths are distinct, being
  the keys of an object.)
\<close>

theorem validateAll_every_field:
  "\<exists>s'. validateAll run s
           = Inr (s', list_all (\<lambda>(p, c). valid (run c (value_at (data s) p) (data s)))
                        (fieldConfigs s))
        \<and> (distinct (map fst (fieldConfigs s)) \<longrightarrow>
             (\<forall>(p, c) \<in> set (fieldConfigs s).
                \<exists>st. fieldStates s' p = Some st \<and> validated st
                   \<and> result st = Some (run c (value_at (data s) p) (data s))))"
  using validate_entries_result [of run s True "fieldConfigs s"]
  unfolding validateAll_def by auto

theorem validateAll_every_field_witness:
  "\<exists>s'. validateAll required_check
          \<lparr>data = JObj [''email'' \<mapsto> JStr ''a@b.c''], fieldStates = Map.empty,
           fieldConfigs = [(''/name'', ''Name is required''),
                           (''/email'', ''Email is required'')]\<rparr>
        = Inr (s', False)
      \<and> (\<exists>st. fieldStates s' ''/email'' = Some st \<and> validated st
             \<and> result st = Some \<lparr>valid = True, errors = []\<rparr>)"
  using validateAll_every_field
          [of required_check
              "\<lparr>data = JObj [''email'' \<mapsto> JStr ''a@b.c''], fieldStates = Map.empty,
                fieldConfigs = [(''/name'', ''Name is required''),
                                (''/email'', ''Email is required'')]\<rparr>"]
  by (auto simp add: value_at_def path_segments_def startsWith_def required_check_def)

section \<open>Properties of the action engine\<close>



end
